theory Spec2Isabelle
  imports Complex_Main
begin

section \<open>The analysis store of src/store/store.js\<close>

text \<open>
  The store is a zustand store: every action is a function from the current state to
  the next one (\<open>set((state) => ...)\<close> merges the returned fields into the state), so an
  action is modelled as a function \<open>state \<Rightarrow> state\<close>.  The two values an action reads
  from its environment, the generated identifier
  \<^verbatim>\<open>`analysis_${Date.now()}_${Math.random().toString(36).substr(2, 9)}`\<close> and the clock
  \<^verbatim>\<open>new Date().toISOString()\<close>, are arguments of \<open>addAnalysis\<close>.

  Numbers: \<open>totalAnalyses\<close> and \<open>violationsDetected\<close> only ever move by whole steps from 0
  and are \<open>int\<close>; what an entry of \<open>analysisTypes\<close> can hold is the type \<open>bucket\<close>.  Confidence
  values are exact rationals, so the rounding of IEEE doubles is idealised away; the one
  non-finite value the store can compute itself, \<open>0 / 0\<close>, is kept as \<open>NaN\<close>.
  A timestamp is the instant \<^verbatim>\<open>new Date(a.timestamp).getTime()\<close> reads from it, in
  milliseconds; a missing timestamp reads as \<open>NaN\<close> there.
\<close>

subsection \<open>Data model\<close>

datatype jsnum = Num rat | NaN

text \<open>A violation; \<open>v_type\<close> is its \<open>type\<close> key (the name \<open>type\<close> is the record's below).\<close>

record violation =
  v_type :: string
  details :: "string \<rightharpoonup> string"

text \<open>
  One JavaScript object type serves as stored record, as the argument of \<open>addAnalysis\<close>
  and as the \<open>updates\<close> of \<open>updateAnalysis\<close>: a field that is absent (\<open>undefined\<close>) is
  \<open>None\<close>.  The fields the store never inspects are the map \<open>extra\<close>.
\<close>

record analysis =
  id_field :: "string option"
  timestamp :: "int option"
  type :: "string option"
  confidence :: "rat option"
  status :: "string option"
  violations :: "violation list option"
  extra :: "string \<rightharpoonup> string"

text \<open>
  \<open>analysisTypes\<close> is a plain object, \<open>{}\<close>, whose prototype is \<open>Object.prototype\<close>.  A value
  the store can leave under one of its keys is a whole number, \<open>NaN\<close>, or a string: the
  text of the member of \<open>Object.prototype\<close> of that name (\<open>String\<close> of a built-in function,
  or of the prototype object itself for \<open>__proto__\<close>) followed by a number of digits \<open>1\<close>.
  The own properties of the object are a map.
\<close>

datatype bucket = Count int | NaN_bucket | MemberText string nat

record statistics =
  totalAnalyses :: int
  violationsDetected :: int
  averageConfidence :: jsnum
  analysisTypes :: "string \<rightharpoonup> bucket"

record filters =
  dateFrom :: "int option"
  dateTo :: "int option"
  violationType :: string
  sortBy :: string
  sortOrder :: string

text \<open>The argument of \<open>setFilters\<close>: the keys it carries (a carried \<open>null\<close> is \<open>Some None\<close>).\<close>

record newFilters =
  new_dateFrom :: "int option option"
  new_dateTo :: "int option option"
  new_violationType :: "string option"
  new_sortBy :: "string option"
  new_sortOrder :: "string option"

record state =
  analysisHistory :: "analysis list"
  statistics :: statistics
  filters :: filters
  selectedAnalysis :: "analysis option"
  isLoading :: bool
  error :: "string option"

definition initial_statistics :: statistics where
  "initial_statistics =
     \<lparr>totalAnalyses = 0, violationsDetected = 0, averageConfidence = Num 0,
      analysisTypes = Map.empty\<rparr>"

definition default_filters :: filters where
  "default_filters =
     \<lparr>dateFrom = None, dateTo = None, violationType = ''all'', sortBy = ''date'',
      sortOrder = ''desc''\<rparr>"

definition initial_state :: state where
  "initial_state =
     \<lparr>analysisHistory = [], statistics = initial_statistics, filters = default_filters,
      selectedAnalysis = None, isLoading = False, error = None\<rparr>"

subsection \<open>Object spread and the small expressions of the source\<close>

text \<open>\<open>{ ...a, ...b }\<close>: every key of \<open>b\<close> overwrites the same key of \<open>a\<close>.\<close>

definition override :: "'a option \<Rightarrow> 'a option \<Rightarrow> 'a option" where
  "override x y = (case y of None \<Rightarrow> x | Some v \<Rightarrow> Some v)"

definition spread :: "analysis \<Rightarrow> analysis \<Rightarrow> analysis" where
  "spread a b =
     \<lparr>id_field = override (id_field a) (id_field b),
      timestamp = override (timestamp a) (timestamp b),
      type = override (type a) (type b),
      confidence = override (confidence a) (confidence b),
      status = override (status a) (status b),
      violations = override (violations a) (violations b),
      extra = extra a ++ extra b\<rparr>"

text \<open>\<open>{ id: ..., timestamp: ... }\<close>, the object literal \<open>addAnalysis\<close> starts from.\<close>

definition generated :: "string \<Rightarrow> int \<Rightarrow> analysis" where
  "generated gen now =
     \<lparr>id_field = Some gen, timestamp = Some now, type = None, confidence = None,
      status = None, violations = None, extra = Map.empty\<rparr>"

text \<open>\<open>analysis.violations?.length || 0\<close>\<close>

definition violations_length :: "analysis \<Rightarrow> int" where
  "violations_length a = (case violations a of None \<Rightarrow> 0 | Some vs \<Rightarrow> int (length vs))"

text \<open>\<open>a.confidence || 0\<close>\<close>

definition confidence_or_0 :: "analysis \<Rightarrow> rat" where
  "confidence_or_0 a = (case confidence a of None \<Rightarrow> 0 | Some c \<Rightarrow> c)"

text \<open>
  The names \<open>Object.prototype\<close> defines.  Reading one of them from an object that has no
  own property of that name gives the inherited member, not \<open>undefined\<close>.
\<close>

definition object_prototype_keys :: "string list" where
  "object_prototype_keys =
     [''constructor'', ''hasOwnProperty'', ''isPrototypeOf'', ''propertyIsEnumerable'',
      ''toLocaleString'', ''toString'', ''valueOf'', ''__proto__'',
      ''__defineGetter__'', ''__defineSetter__'', ''__lookupGetter__'', ''__lookupSetter__'']"

datatype property = Undefined | Own bucket | Inherited

text \<open>\<open>analysisTypes[t]\<close>, read\<close>

definition get_property :: "(string \<rightharpoonup> bucket) \<Rightarrow> string \<Rightarrow> property" where
  "get_property m t =
     (case m t of
        Some b \<Rightarrow> Own b
      | None \<Rightarrow> if t \<in> set object_prototype_keys then Inherited else Undefined)"

text \<open>
  \<open>(analysisTypes[t] || 0) + 1\<close>: \<open>undefined\<close>, 0 and \<open>NaN\<close> are falsy and give 1; a string or
  an inherited member is truthy, and \<open>+ 1\<close> on it is string concatenation.
\<close>

definition or_0_plus_1 :: "string \<Rightarrow> property \<Rightarrow> bucket" where
  "or_0_plus_1 t p =
     (case p of
        Undefined \<Rightarrow> Count 1
      | Own b \<Rightarrow> (case b of
                    Count n \<Rightarrow> Count (n + 1)
                  | NaN_bucket \<Rightarrow> Count 1
                  | MemberText k j \<Rightarrow> MemberText k (Suc j))
      | Inherited \<Rightarrow> MemberText t 1)"

text \<open>The truth value of \<open>analysisTypes[t]\<close> in a condition.\<close>

definition truthy :: "property \<Rightarrow> bool" where
  "truthy p =
     (case p of
        Undefined \<Rightarrow> False
      | Own b \<Rightarrow> (case b of Count n \<Rightarrow> n \<noteq> 0 | NaN_bucket \<Rightarrow> False | MemberText k j \<Rightarrow> True)
      | Inherited \<Rightarrow> True)"

text \<open>
  \<open>analysisTypes[t] - 1\<close>: the operand is converted to a number, and neither the text of a
  member nor the member itself is numeric.
\<close>

definition minus_1 :: "property \<Rightarrow> bucket" where
  "minus_1 p =
     (case p of
        Undefined \<Rightarrow> NaN_bucket
      | Own b \<Rightarrow> (case b of Count n \<Rightarrow> Count (n - 1) | NaN_bucket \<Rightarrow> NaN_bucket
                  | MemberText k j \<Rightarrow> NaN_bucket)
      | Inherited \<Rightarrow> NaN_bucket)"

text \<open>
  \<open>analysisTypes[t] = v\<close>, written: an own property is created or overwritten.  The one
  exception is the key \<open>__proto__\<close> where the object has no own property of that name: the
  write reaches the inherited setter, which ignores a value that is not an object.
\<close>

definition set_property :: "(string \<rightharpoonup> bucket) \<Rightarrow> string \<Rightarrow> bucket \<Rightarrow> (string \<rightharpoonup> bucket)" where
  "set_property m t v = (if t = ''__proto__'' \<and> m t = None then m else m(t \<mapsto> v))"

text \<open>
  \<open>cs.reduce((a, b) => a + b, 0) / cs.length\<close> with no guard: on the empty list it is
  \<open>0 / 0\<close>, which is \<open>NaN\<close>.
\<close>

definition reduce_div_length :: "rat list \<Rightarrow> jsnum" where
  "reduce_div_length cs =
     (if length cs = 0 then NaN else Num (sum_list cs / of_nat (length cs)))"

text \<open>\<open>cs.length > 0 ? cs.reduce(...) / cs.length : 0\<close>\<close>

definition guarded_average :: "rat list \<Rightarrow> jsnum" where
  "guarded_average cs = (if length cs > 0 then reduce_div_length cs else Num 0)"

text \<open>\<open>findIndex\<close>; the result \<open>-1\<close> is \<open>None\<close>.\<close>

fun findIndex :: "('a \<Rightarrow> bool) \<Rightarrow> 'a list \<Rightarrow> nat option" where
  "findIndex P [] = None"
| "findIndex P (x # xs) = (if P x then Some 0 else map_option Suc (findIndex P xs))"

subsection \<open>Actions on the history\<close>

definition addAnalysis :: "string \<Rightarrow> int \<Rightarrow> analysis \<Rightarrow> state \<Rightarrow> state" where
  "addAnalysis gen now analysis state =
     (let newAnalysis = spread (generated gen now) analysis;
          updatedHistory = newAnalysis # analysisHistory state;
          st = statistics state;
          stats1 = st\<lparr>totalAnalyses := totalAnalyses st + 1,
                      violationsDetected := violationsDetected st + violations_length analysis\<rparr>;
          stats2 = (case type analysis of
                      None \<Rightarrow> stats1
                    | Some t \<Rightarrow>
                        if t = [] then stats1
                        else stats1\<lparr>analysisTypes :=
                               (analysisTypes stats1)
                                 (t \<mapsto> or_0_plus_1 t (get_property (analysisTypes stats1) t))\<rparr>);
          stats3 = (case confidence analysis of
                      None \<Rightarrow> stats2
                    | Some c \<Rightarrow>
                        stats2\<lparr>averageConfidence :=
                          reduce_div_length
                            (filter (\<lambda>c. c > 0)
                               (map confidence_or_0 (analysisHistory state) @ [c]))\<rparr>)
      in state\<lparr>analysisHistory := updatedHistory, statistics := stats3\<rparr>)"

text \<open>
  In the source the decrement of \<open>analysisTypes[analysis.type]\<close> writes into the object the
  previous state still shares (the spread at \<open>updatedStatistics\<close> is shallow); the state
  that \<open>removeAnalysis\<close> returns is what the model returns.
\<close>

definition removeAnalysis :: "string \<Rightarrow> state \<Rightarrow> state" where
  "removeAnalysis analysisId state =
     (case find (\<lambda>a. id_field a = Some analysisId) (analysisHistory state) of
        None \<Rightarrow> state
      | Some analysis \<Rightarrow>
          (let updatedHistory = filter (\<lambda>a. id_field a \<noteq> Some analysisId) (analysisHistory state);
               st = statistics state;
               stats1 = st\<lparr>totalAnalyses := max 0 (totalAnalyses st - 1),
                           violationsDetected :=
                             max 0 (violationsDetected st - violations_length analysis)\<rparr>;
               stats2 = (case type analysis of
                           None \<Rightarrow> stats1
                         | Some t \<Rightarrow>
                             if t \<noteq> [] \<and> truthy (get_property (analysisTypes stats1) t)
                             then stats1\<lparr>analysisTypes :=
                                    set_property (analysisTypes stats1) t
                                      (minus_1 (get_property (analysisTypes stats1) t))\<rparr>
                             else stats1);
               stats3 = (if length updatedHistory > 0
                         then stats2\<lparr>averageConfidence :=
                                guarded_average
                                  (filter (\<lambda>c. c > 0) (map confidence_or_0 updatedHistory))\<rparr>
                         else stats2\<lparr>averageConfidence := Num 0\<rparr>)
           in state\<lparr>analysisHistory := updatedHistory,
                    statistics := stats3,
                    selectedAnalysis :=
                      (case selectedAnalysis state of
                         None \<Rightarrow> None
                       | Some sel \<Rightarrow> if id_field sel = Some analysisId then None else Some sel)\<rparr>))"

definition updateAnalysis :: "string \<Rightarrow> analysis \<Rightarrow> state \<Rightarrow> state" where
  "updateAnalysis analysisId updates state =
     (case findIndex (\<lambda>a. id_field a = Some analysisId) (analysisHistory state) of
        None \<Rightarrow> state
      | Some analysisIndex \<Rightarrow>
          (let oldAnalysis = analysisHistory state ! analysisIndex;
               updatedAnalysis = spread oldAnalysis updates;
               newHistory = (analysisHistory state)[analysisIndex := updatedAnalysis];
               updatedStatistics =
                 (case confidence updates of
                    None \<Rightarrow> statistics state
                  | Some c \<Rightarrow>
                      if confidence oldAnalysis \<noteq> Some c
                      then (statistics state)\<lparr>averageConfidence :=
                              guarded_average
                                (filter (\<lambda>c. c > 0) (map confidence_or_0 newHistory))\<rparr>
                      else statistics state)
           in state\<lparr>analysisHistory := newHistory,
                    statistics := updatedStatistics,
                    selectedAnalysis :=
                      (case selectedAnalysis state of
                         None \<Rightarrow> None
                       | Some sel \<Rightarrow>
                           if id_field sel = Some analysisId then Some updatedAnalysis
                           else Some sel)\<rparr>))"

definition clearHistory :: "state \<Rightarrow> state" where
  "clearHistory state =
     state\<lparr>analysisHistory := [], statistics := initial_statistics, selectedAnalysis := None\<rparr>"

subsection \<open>Filters, selection and flags\<close>

definition setFilters :: "newFilters \<Rightarrow> state \<Rightarrow> state" where
  "setFilters nf state =
     (let f = filters state
      in state\<lparr>filters :=
           \<lparr>dateFrom = (case new_dateFrom nf of None \<Rightarrow> dateFrom f | Some v \<Rightarrow> v),
            dateTo = (case new_dateTo nf of None \<Rightarrow> dateTo f | Some v \<Rightarrow> v),
            violationType = (case new_violationType nf of None \<Rightarrow> violationType f | Some v \<Rightarrow> v),
            sortBy = (case new_sortBy nf of None \<Rightarrow> sortBy f | Some v \<Rightarrow> v),
            sortOrder = (case new_sortOrder nf of None \<Rightarrow> sortOrder f | Some v \<Rightarrow> v)\<rparr>\<rparr>)"

definition resetFilters :: "state \<Rightarrow> state" where
  "resetFilters state = state\<lparr>filters := default_filters\<rparr>"

definition setSelectedAnalysis :: "analysis option \<Rightarrow> state \<Rightarrow> state" where
  "setSelectedAnalysis a state = state\<lparr>selectedAnalysis := a\<rparr>"

definition clearSelectedAnalysis :: "state \<Rightarrow> state" where
  "clearSelectedAnalysis state = state\<lparr>selectedAnalysis := None\<rparr>"

definition setLoading :: "bool \<Rightarrow> state \<Rightarrow> state" where
  "setLoading b state = state\<lparr>isLoading := b\<rparr>"

definition setError :: "string option \<Rightarrow> state \<Rightarrow> state" where
  "setError e state = state\<lparr>error := e\<rparr>"

definition clearError :: "state \<Rightarrow> state" where
  "clearError state = state\<lparr>error := None\<rparr>"

subsection \<open>The filtered and sorted view\<close>

text \<open>
  \<open>String.prototype.localeCompare\<close> belongs to the host, not to the store.  It is modelled
  as the comparison of the strings character by character, by character code, with the
  results \<open>-1\<close>, \<open>0\<close> and \<open>1\<close>; on words of lower-case ASCII letters, such as the status
  strings, that is the order the host's collation gives.
\<close>

fun localeCompare :: "string \<Rightarrow> string \<Rightarrow> int" where
  "localeCompare [] [] = 0"
| "localeCompare [] (y # ys) = - 1"
| "localeCompare (x # xs) [] = 1"
| "localeCompare (x # xs) (y # ys) =
     (if (of_char x :: nat) < of_char y then - 1
      else if (of_char y :: nat) < of_char x then 1
      else localeCompare xs ys)"

text \<open>\<open>a.status || ''\<close>\<close>

definition status_or_empty :: "analysis \<Rightarrow> string" where
  "status_or_empty a = (case status a of None \<Rightarrow> [] | Some s \<Rightarrow> s)"

text \<open>\<open>new Date(a.timestamp).getTime() - new Date(b.timestamp).getTime()\<close>\<close>

definition getTime_difference :: "analysis \<Rightarrow> analysis \<Rightarrow> jsnum" where
  "getTime_difference a b =
     (case timestamp a of
        None \<Rightarrow> NaN
      | Some x \<Rightarrow> (case timestamp b of None \<Rightarrow> NaN | Some y \<Rightarrow> Num (of_int (x - y))))"

definition negate :: "jsnum \<Rightarrow> jsnum" where
  "negate v = (case v of NaN \<Rightarrow> NaN | Num r \<Rightarrow> Num (- r))"

text \<open>The comparison function handed to \<open>filtered.sort\<close>.\<close>

definition comparison :: "filters \<Rightarrow> analysis \<Rightarrow> analysis \<Rightarrow> jsnum" where
  "comparison f a b =
     (let c = (if sortBy f = ''confidence'' then Num (confidence_or_0 a - confidence_or_0 b)
               else if sortBy f = ''status''
                 then Num (of_int (localeCompare (status_or_empty a) (status_or_empty b)))
               else getTime_difference a b)
      in if sortOrder f = ''asc'' then c else negate c)"

text \<open>
  \<open>Array.prototype.sort\<close> with a comparison function: the language reads a \<open>NaN\<close> result
  as \<open>+0\<close> and (since ECMAScript 2019) keeps elements that compare equal in their order.
  For a consistent comparison function that fixes the result, which the stable insertion
  sort below computes.
\<close>

definition sortCompare :: "('a \<Rightarrow> 'a \<Rightarrow> jsnum) \<Rightarrow> 'a \<Rightarrow> 'a \<Rightarrow> rat" where
  "sortCompare cmp x y = (case cmp x y of NaN \<Rightarrow> 0 | Num r \<Rightarrow> r)"

fun insert_sorted :: "('a \<Rightarrow> 'a \<Rightarrow> jsnum) \<Rightarrow> 'a \<Rightarrow> 'a list \<Rightarrow> 'a list" where
  "insert_sorted cmp x [] = [x]"
| "insert_sorted cmp x (y # ys) =
     (if sortCompare cmp x y \<le> 0 then x # y # ys else y # insert_sorted cmp x ys)"

definition array_sort :: "('a \<Rightarrow> 'a \<Rightarrow> jsnum) \<Rightarrow> 'a list \<Rightarrow> 'a list" where
  "array_sort cmp xs = foldr (insert_sorted cmp) xs []"

definition getFilteredHistory :: "state \<Rightarrow> analysis list" where
  "getFilteredHistory state =
     (let f = filters state;
          filtered0 = analysisHistory state;
          filtered1 = (case dateFrom f of
                         None \<Rightarrow> filtered0
                       | Some d \<Rightarrow>
                           filter (\<lambda>a. case timestamp a of None \<Rightarrow> False | Some t \<Rightarrow> t \<ge> d)
                             filtered0);
          filtered2 = (case dateTo f of
                         None \<Rightarrow> filtered1
                       | Some d \<Rightarrow>
                           filter (\<lambda>a. case timestamp a of None \<Rightarrow> False | Some t \<Rightarrow> t \<le> d)
                             filtered1);
          filtered3 = (if violationType f \<noteq> ''all''
                       then filter (\<lambda>a. case violations a of
                                          None \<Rightarrow> False
                                        | Some vs \<Rightarrow>
                                            list_ex (\<lambda>v. v_type v = violationType f) vs)
                              filtered2
                       else filtered2)
      in array_sort (comparison f) filtered3)"

subsection \<open>Sequences of calls\<close>

datatype action =
    AddAnalysis string int analysis
  | RemoveAnalysis string
  | UpdateAnalysis string analysis
  | ClearHistory
  | SetFilters newFilters
  | ResetFilters
  | SetSelectedAnalysis "analysis option"
  | ClearSelectedAnalysis
  | SetLoading bool
  | SetError "string option"
  | ClearError

fun step :: "state \<Rightarrow> action \<Rightarrow> state" where
  "step s (AddAnalysis gen now a) = addAnalysis gen now a s"
| "step s (RemoveAnalysis i) = removeAnalysis i s"
| "step s (UpdateAnalysis i u) = updateAnalysis i u s"
| "step s ClearHistory = clearHistory s"
| "step s (SetFilters nf) = setFilters nf s"
| "step s ResetFilters = resetFilters s"
| "step s (SetSelectedAnalysis a) = setSelectedAnalysis a s"
| "step s ClearSelectedAnalysis = clearSelectedAnalysis s"
| "step s (SetLoading b) = setLoading b s"
| "step s (SetError e) = setError e s"
| "step s ClearError = clearError s"

fun run :: "state \<Rightarrow> action list \<Rightarrow> state" where
  "run s [] = s"
| "run s (a # as) = run (step s a) as"

subsection \<open>Properties of states and of calls\<close>

text \<open>
  A record whose type, if it has one, is not a name that \<open>Object.prototype\<close> defines, and
  a call that brings no other type into the store.
\<close>

definition plain_type :: "analysis \<Rightarrow> bool" where
  "plain_type a \<longleftrightarrow> (case type a of None \<Rightarrow> True | Some t \<Rightarrow> t \<notin> set object_prototype_keys)"

fun plain_call :: "state \<Rightarrow> action \<Rightarrow> bool" where
  "plain_call s (AddAnalysis gen now a) = plain_type a"
| "plain_call s (UpdateAnalysis i u) = plain_type u"
| "plain_call s _ = True"

text \<open>The counters of the statistics are numbers and not negative.\<close>

definition bucket_nonneg :: "bucket \<Rightarrow> bool" where
  "bucket_nonneg b = (case b of Count c \<Rightarrow> 0 \<le> c | NaN_bucket \<Rightarrow> False | MemberText k j \<Rightarrow> False)"

definition counters_nonneg :: "statistics \<Rightarrow> bool" where
  "counters_nonneg st \<longleftrightarrow>
     0 \<le> totalAnalyses st \<and> 0 \<le> violationsDetected st
     \<and> (\<forall>t b. analysisTypes st t = Some b \<longrightarrow> bucket_nonneg b)"

definition plain_and_nonneg :: "state \<Rightarrow> bool" where
  "plain_and_nonneg s \<longleftrightarrow>
     counters_nonneg (statistics s) \<and> (\<forall>a\<in>set (analysisHistory s). plain_type a)"

text \<open>No two records of the history share an id, and a call that leaves it so.\<close>

definition ids_distinct :: "state \<Rightarrow> bool" where
  "ids_distinct s \<longleftrightarrow> distinct (map id_field (analysisHistory s))"

definition keeps_ids_distinct :: "state \<Rightarrow> action \<Rightarrow> bool" where
  "keeps_ids_distinct s a \<longleftrightarrow> ids_distinct (step s a)"

text \<open>A call that is not an update carrying a \<open>violations\<close> key.\<close>

fun keeps_violations :: "state \<Rightarrow> action \<Rightarrow> bool" where
  "keeps_violations s (UpdateAnalysis i u) = (violations u = None)"
| "keeps_violations s _ = True"

definition keeps_ids_and_violations :: "state \<Rightarrow> action \<Rightarrow> bool" where
  "keeps_ids_and_violations s a \<longleftrightarrow> keeps_ids_distinct s a \<and> keeps_violations s a"

text \<open>Every call of a sequence satisfies \<open>ok\<close> in the state it is made in.\<close>

fun every_call :: "(state \<Rightarrow> action \<Rightarrow> bool) \<Rightarrow> state \<Rightarrow> action list \<Rightarrow> bool" where
  "every_call ok s [] = True"
| "every_call ok s (a # as) = (ok s a \<and> every_call ok (step s a) as)"

definition count_consistent :: "state \<Rightarrow> bool" where
  "count_consistent s \<longleftrightarrow>
     totalAnalyses (statistics s) = int (length (analysisHistory s))"

definition violations_consistent :: "state \<Rightarrow> bool" where
  "violations_consistent s \<longleftrightarrow>
     violationsDetected (statistics s) = sum_list (map violations_length (analysisHistory s))"

subsection \<open>Concrete inputs\<close>

text \<open>An object with no keys, and a caller's record that carries its own \<open>id\<close>.\<close>

definition no_fields :: analysis where
  "no_fields =
     \<lparr>id_field = None, timestamp = None, type = None, confidence = None,
      status = None, violations = None, extra = Map.empty\<rparr>"

definition with_id_x :: analysis where
  "with_id_x = no_fields\<lparr>id_field := Some ''x''\<rparr>"

definition a_violation :: violation where
  "a_violation = \<lparr>v_type = ''spam'', details = Map.empty\<rparr>"

text \<open>The records of the store that carry a given id.\<close>

definition records_with_id :: "string \<Rightarrow> state \<Rightarrow> analysis list" where
  "records_with_id i s = filter (\<lambda>a. id_field a = Some i) (analysisHistory s)"

text \<open>
  Two records inserted under the same caller-supplied id, the first of them then given
  one violation by an update.
\<close>

definition duplicated_id_state :: state where
  "duplicated_id_state =
     run initial_state
       [AddAnalysis ''g1'' 1 with_id_x, AddAnalysis ''g2'' 2 with_id_x,
        UpdateAnalysis ''x'' (no_fields\<lparr>violations := Some [a_violation]\<rparr>)]"

text \<open>Two records with generated ids, the older one selected.\<close>

definition selected_state :: state where
  "selected_state =
     setSelectedAnalysis (Some (generated ''g1'' 5))
       (addAnalysis ''g2'' 6 no_fields (addAnalysis ''g1'' 5 no_fields initial_state))"

text \<open>The history of the sorting scenario, and the ids of its sorted view.\<close>

definition two_records :: "int \<Rightarrow> int \<Rightarrow> analysis list" where
  "two_records T1 T2 =
     [no_fields\<lparr>id_field := Some ''1'', timestamp := Some T1, confidence := Some (9 / 10),
                status := Some ''pass''\<rparr>,
      no_fields\<lparr>id_field := Some ''2'', timestamp := Some T2, confidence := Some (4 / 10),
                status := Some ''fail''\<rparr>]"

definition sorted_view :: "state \<Rightarrow> int \<Rightarrow> int \<Rightarrow> string \<Rightarrow> string \<Rightarrow> string option list" where
  "sorted_view s T1 T2 by ord =
     map id_field
       (getFilteredHistory
          (s\<lparr>analysisHistory := two_records T1 T2,
             filters := default_filters\<lparr>sortBy := by, sortOrder := ord\<rparr>\<rparr>))"

text \<open>A record whose type is the name of a member of \<open>Object.prototype\<close>.\<close>

definition constructor_record :: analysis where
  "constructor_record = no_fields\<lparr>type := Some ''constructor''\<rparr>"

text \<open>
  Two records inserted under the same caller-supplied id, the older one selected, and
  an \<open>updates\<close> object that sets the confidence.
\<close>

definition older_x :: analysis where
  "older_x = with_id_x\<lparr>timestamp := Some 1\<rparr>"

definition newer_x :: analysis where
  "newer_x = with_id_x\<lparr>timestamp := Some 2\<rparr>"

definition shared_id_selected_state :: state where
  "shared_id_selected_state =
     setSelectedAnalysis (Some older_x)
       (addAnalysis ''g2'' 2 with_id_x (addAnalysis ''g1'' 1 with_id_x initial_state))"

definition confidence_1 :: analysis where
  "confidence_1 = no_fields\<lparr>confidence := Some 1\<rparr>"

text \<open>A sequence of calls under generated ids.\<close>

definition distinct_id_calls :: "action list" where
  "distinct_id_calls =
     [AddAnalysis ''g1'' 1 (no_fields\<lparr>violations := Some [a_violation, a_violation]\<rparr>),
      AddAnalysis ''g2'' 2 no_fields,
      UpdateAnalysis ''g2'' (no_fields\<lparr>confidence := Some 1\<rparr>),
      RemoveAnalysis ''g2'',
      ClearHistory]"

lemmas eval_defs =
  addAnalysis_def removeAnalysis_def updateAnalysis_def clearHistory_def
  initial_state_def initial_statistics_def default_filters_def
  spread_def generated_def override_def violations_length_def confidence_or_0_def
  get_property_def or_0_plus_1_def truthy_def minus_1_def set_property_def
  object_prototype_keys_def reduce_div_length_def guarded_average_def
  no_fields_def with_id_x_def a_violation_def Let_def

lemmas other_action_defs =
  setFilters_def resetFilters_def setSelectedAnalysis_def clearSelectedAnalysis_def
  setLoading_def setError_def clearError_def

lemmas call_defs =
  keeps_ids_and_violations_def keeps_ids_distinct_def ids_distinct_def distinct_id_calls_def

lemmas sort_defs =
  getFilteredHistory_def array_sort_def comparison_def sortCompare_def negate_def
  getTime_difference_def status_or_empty_def two_records_def sorted_view_def

section \<open>Lookup by id\<close>

lemma findIndex_None_iff: "findIndex P xs = None \<longleftrightarrow> (\<forall>x\<in>set xs. \<not> P x)"
  by (induction xs) auto

lemma findIndex_Some:
  "findIndex P xs = Some k \<Longrightarrow> k < length xs \<and> P (xs ! k) \<and> (\<forall>j<k. \<not> P (xs ! j))"
proof (induction xs arbitrary: k)
  case Nil
  then show ?case by simp
next
  case (Cons x xs)
  show ?case
  proof (cases "P x")
    case True
    with Cons.prems show ?thesis by simp
  next
    case False
    with Cons.prems obtain k' where k': "findIndex P xs = Some k'" "k = Suc k'"
      by auto
    from Cons.IH [OF k'(1)] False k'(2) show ?thesis
      by (auto simp: nth_Cons split: nat.splits)
  qed
qed

lemma find_is_Some: "x \<in> set xs \<Longrightarrow> P x \<Longrightarrow> \<exists>y. find P xs = Some y"
  by (cases "find P xs") (auto simp: find_None_iff)

lemma findIndex_is_Some: "x \<in> set xs \<Longrightarrow> P x \<Longrightarrow> \<exists>k. findIndex P xs = Some k"
  by (cases "findIndex P xs") (auto simp: findIndex_None_iff)

lemma find_hd_filter: "filter P xs \<noteq> [] \<Longrightarrow> find P xs = Some (hd (filter P xs))"
  by (induction xs) auto

text \<open>What the two actions return once the record is found.\<close>

lemma updateAnalysis_found:
  assumes "findIndex (\<lambda>a. id_field a = Some i) (analysisHistory s) = Some k"
  shows "analysisHistory (updateAnalysis i u s)
           = (analysisHistory s)[k := spread (analysisHistory s ! k) u]"
    and "selectedAnalysis (updateAnalysis i u s)
           = (case selectedAnalysis s of
                None \<Rightarrow> None
              | Some sel \<Rightarrow> if id_field sel = Some i
                            then Some (spread (analysisHistory s ! k) u) else Some sel)"
  using assms by (simp_all add: updateAnalysis_def Let_def)

lemma removeAnalysis_found:
  assumes "find (\<lambda>a. id_field a = Some i) (analysisHistory s) = Some x"
  shows "analysisHistory (removeAnalysis i s)
           = filter (\<lambda>a. id_field a \<noteq> Some i) (analysisHistory s)"
    and "selectedAnalysis (removeAnalysis i s)
           = (case selectedAnalysis s of
                None \<Rightarrow> None
              | Some sel \<Rightarrow> if id_field sel = Some i then None else Some sel)"
    and "totalAnalyses (statistics (removeAnalysis i s))
           = max 0 (totalAnalyses (statistics s) - 1)"
    and "violationsDetected (statistics (removeAnalysis i s))
           = max 0 (violationsDetected (statistics s) - violations_length x)"
  using assms by (simp_all add: removeAnalysis_def Let_def split: option.splits)

lemma selected_state_eval:
  "analysisHistory selected_state = [generated ''g2'' 6, generated ''g1'' 5]"
  "selectedAnalysis selected_state = Some (generated ''g1'' 5)"
  by (simp_all add: selected_state_def setSelectedAnalysis_def eval_defs)

lemma find_findIndex:
  "findIndex P xs = Some k \<Longrightarrow> find P xs = Some (xs ! k)"
proof (induction xs arbitrary: k)
  case Nil
  then show ?case by simp
next
  case (Cons x xs)
  then show ?case by (cases "P x") auto
qed

lemma find_unique:
  assumes "X \<in> set xs" and "P X" and "\<forall>Y\<in>set xs. P Y \<longrightarrow> Y = X"
  shows "find P xs = Some X"
proof -
  from assms(1,2) obtain y where y: "find P xs = Some y"
    by (cases "find P xs") (auto simp: find_None_iff)
  then have "y \<in> set xs" "P y" by (auto simp: find_Some_iff)
  with assms(3) y show ?thesis by blast
qed

lemma shared_id_selected_state_eval:
  "analysisHistory shared_id_selected_state = [newer_x, older_x]"
  "selectedAnalysis shared_id_selected_state = Some older_x"
  by (simp_all add: shared_id_selected_state_def setSelectedAnalysis_def older_x_def newer_x_def
        eval_defs)

section \<open>Unknown ids\<close>

text \<open>
  C5. When no record of \<open>analysisHistory\<close> has the id, \<open>removeAnalysis\<close> and
  \<open>updateAnalysis\<close> return the state they were given: history, statistics, filters,
  selection, loading flag and error slot are all unchanged.
\<close>

theorem unknown_id_is_noop:
  assumes "\<forall>a\<in>set (analysisHistory s). id_field a \<noteq> Some i"
  shows "removeAnalysis i s = s \<and> updateAnalysis i u s = s"
proof -
  have "find (\<lambda>a. id_field a = Some i) (analysisHistory s) = None"
    using assms by (simp add: find_None_iff)
  moreover have "findIndex (\<lambda>a. id_field a = Some i) (analysisHistory s) = None"
    using assms by (simp add: findIndex_None_iff)
  ultimately show ?thesis
    by (simp add: removeAnalysis_def updateAnalysis_def)
qed

theorem unknown_id_is_noop_witness:
  "Some ''zz'' \<notin> set (map id_field (analysisHistory (addAnalysis ''g1'' 5 no_fields initial_state)))
   \<and> removeAnalysis ''zz'' (addAnalysis ''g1'' 5 no_fields initial_state)
       = addAnalysis ''g1'' 5 no_fields initial_state
   \<and> updateAnalysis ''zz'' (no_fields\<lparr>confidence := Some 1\<rparr>)
         (addAnalysis ''g1'' 5 no_fields initial_state)
       = addAnalysis ''g1'' 5 no_fields initial_state"
proof -
  have h: "\<forall>a\<in>set (analysisHistory (addAnalysis ''g1'' 5 no_fields initial_state)).
             id_field a \<noteq> Some ''zz''"
    by (simp add: eval_defs)
  have n: "Some ''zz'' \<notin> set (map id_field (analysisHistory (addAnalysis ''g1'' 5 no_fields initial_state)))"
    by (simp add: eval_defs)
  from unknown_id_is_noop [OF h] n show ?thesis by blast
qed

section \<open>The average confidence\<close>

text \<open>
  The guarded average is the mean of the list, or 0 on the empty list, and never \<open>NaN\<close>;
  \<open>removeAnalysis\<close> and a confidence-changing \<open>updateAnalysis\<close> store the guarded average
  of the positive confidences of the new history, \<open>addAnalysis\<close> the unguarded quotient.
\<close>

lemma guarded_average_not_NaN: "guarded_average cs \<noteq> NaN"
  by (simp add: guarded_average_def reduce_div_length_def)

lemma guarded_average_mean:
  "guarded_average cs = (if cs = [] then Num 0 else Num (sum_list cs / of_nat (length cs)))"
  by (simp add: guarded_average_def reduce_div_length_def)

lemma removeAnalysis_average:
  assumes "find (\<lambda>a. id_field a = Some i) (analysisHistory s) = Some x"
  shows "averageConfidence (statistics (removeAnalysis i s))
           = guarded_average
               (filter (\<lambda>c. c > 0) (map confidence_or_0 (analysisHistory (removeAnalysis i s))))"
proof (cases "filter (\<lambda>a. id_field a \<noteq> Some i) (analysisHistory s) = []")
  case True
  with assms show ?thesis
    by (simp add: removeAnalysis_def Let_def guarded_average_def)
next
  case False
  with assms show ?thesis
    by (simp add: removeAnalysis_def Let_def)
qed

lemma updateAnalysis_average:
  assumes "findIndex (\<lambda>a. id_field a = Some i) (analysisHistory s) = Some k"
    and "confidence u = Some c" and "confidence (analysisHistory s ! k) \<noteq> Some c"
  shows "averageConfidence (statistics (updateAnalysis i u s))
           = guarded_average
               (filter (\<lambda>c. c > 0) (map confidence_or_0 (analysisHistory (updateAnalysis i u s))))"
  using assms by (simp add: updateAnalysis_def Let_def)

lemma addAnalysis_average:
  assumes "confidence p = Some c"
  shows "averageConfidence (statistics (addAnalysis gen now p s))
           = reduce_div_length
               (filter (\<lambda>c. c > 0) (map confidence_or_0 (analysisHistory s) @ [c]))"
  using assms by (simp add: addAnalysis_def Let_def split: option.splits)

text \<open>
  C3. After an insertion, a removal or a confidence-changing update \<open>averageConfidence\<close>
  is to be the mean of the positive confidences of the history, and 0, never \<open>NaN\<close>, when
  there is none.  \<open>removeAnalysis\<close> and \<open>updateAnalysis\<close> guard the division with
  \<open>allConfidences.length > 0\<close>; \<open>addAnalysis\<close> divides without the guard.  Adding a record
  whose confidence is 0 to the empty store therefore leaves \<open>0 / 0\<close> in the statistics.
\<close>

theorem addAnalysis_zero_confidence_is_NaN:
  "averageConfidence
     (statistics (addAnalysis ''g1'' 5 (no_fields\<lparr>confidence := Some 0\<rparr>) initial_state))
   = NaN"
  by (simp add: eval_defs)

section \<open>Insertion\<close>

text \<open>
  C4, as stated, fails: the object literal of \<open>addAnalysis\<close> spreads the caller's record
  after the generated \<open>id\<close> and \<open>timestamp\<close>, so a record that carries its own \<open>id\<close> keeps
  it and the generated one is dropped.
\<close>

theorem addAnalysis_generated_id_counterexample:
  "id_field (hd (analysisHistory (addAnalysis ''analysis_1_abc'' 1 with_id_x initial_state)))
     \<noteq> Some ''analysis_1_abc''"
  by (simp add: eval_defs)

text \<open>
  C4, amended.  The record \<open>addAnalysis\<close> builds is always placed at the front of
  \<open>analysisHistory\<close>.  Its id is the generated one when the caller's record carries no
  \<open>id\<close>, and the caller's otherwise; its timestamp is the current instant when the
  caller's record carries no \<open>timestamp\<close>, and the caller's otherwise.
\<close>

theorem addAnalysis_prepends:
  "analysisHistory (addAnalysis gen now p s) = spread (generated gen now) p # analysisHistory s
   \<and> id_field (spread (generated gen now) p)
       = (case id_field p of None \<Rightarrow> Some gen | Some c \<Rightarrow> Some c)
   \<and> timestamp (spread (generated gen now) p)
       = (case timestamp p of None \<Rightarrow> Some now | Some t \<Rightarrow> Some t)"
  by (simp add: addAnalysis_def Let_def spread_def generated_def override_def)

section \<open>Update\<close>

text \<open>
  C6, as stated, fails: \<open>{ ...oldAnalysis, ...updates }\<close> lets an \<open>id\<close> key of \<open>updates\<close>
  replace the record's id.
\<close>

theorem updateAnalysis_id_counterexample:
  "id_field (hd (analysisHistory
       (updateAnalysis ''g1'' with_id_x (addAnalysis ''g1'' 5 no_fields initial_state))))
   \<noteq> id_field (hd (analysisHistory (addAnalysis ''g1'' 5 no_fields initial_state)))"
  by (simp add: eval_defs)

text \<open>
  C6, amended.  The record that \<open>updateAnalysis\<close> updates keeps its id when \<open>updates\<close> has no
  \<open>id\<close> key and keeps its timestamp when \<open>updates\<close> has no \<open>timestamp\<close> key; a key that
  \<open>updates\<close> does carry overwrites the record's.  Every other position of the history is
  left as it was.
\<close>

theorem updateAnalysis_id_timestamp:
  assumes "findIndex (\<lambda>a. id_field a = Some i) (analysisHistory s) = Some k"
  shows "id_field (analysisHistory (updateAnalysis i u s) ! k)
           = (case id_field u of None \<Rightarrow> id_field (analysisHistory s ! k) | Some v \<Rightarrow> Some v)
       \<and> timestamp (analysisHistory (updateAnalysis i u s) ! k)
           = (case timestamp u of None \<Rightarrow> timestamp (analysisHistory s ! k) | Some t \<Rightarrow> Some t)
       \<and> (\<forall>j. j \<noteq> k \<longrightarrow> analysisHistory (updateAnalysis i u s) ! j = analysisHistory s ! j)"
proof -
  from findIndex_Some [OF assms] have k: "k < length (analysisHistory s)" by simp
  show ?thesis
    using k by (simp add: updateAnalysis_found(1) [OF assms] spread_def override_def)
qed

theorem updateAnalysis_id_timestamp_witness:
  "findIndex (\<lambda>a. id_field a = Some ''g1'')
      (analysisHistory (addAnalysis ''g1'' 5 no_fields initial_state)) = Some 0
   \<and> id_field (analysisHistory
        (updateAnalysis ''g1'' (no_fields\<lparr>confidence := Some 1\<rparr>)
           (addAnalysis ''g1'' 5 no_fields initial_state)) ! 0) = Some ''g1''
   \<and> timestamp (analysisHistory
        (updateAnalysis ''g1'' (no_fields\<lparr>confidence := Some 1\<rparr>)
           (addAnalysis ''g1'' 5 no_fields initial_state)) ! 0) = Some 5"
proof -
  have h: "findIndex (\<lambda>a. id_field a = Some ''g1'')
      (analysisHistory (addAnalysis ''g1'' 5 no_fields initial_state)) = Some 0"
    by (simp add: eval_defs)
  from updateAnalysis_id_timestamp [OF h, of "no_fields\<lparr>confidence := Some 1\<rparr>"] h
  show ?thesis by (simp add: eval_defs)
qed

section \<open>The selection\<close>

text \<open>
  C9, as stated, fails where two records share an id.  Both actions compare the id of the
  selection with the id they are given, so removing or updating the newer record of id
  \<open>x\<close> clears or replaces a selection of the older one, a different record; and the
  update changes the first record with the id, so a selected older record is replaced by
  the updated newer one, not by itself updated.
\<close>

theorem selection_shared_id_counterexample:
  "newer_x \<in> set (analysisHistory shared_id_selected_state)
   \<and> older_x \<in> set (analysisHistory shared_id_selected_state)
   \<and> older_x \<noteq> newer_x
   \<and> id_field newer_x = Some ''x''
   \<and> id_field older_x = Some ''x''
   \<and> selectedAnalysis shared_id_selected_state = Some older_x
   \<and> selectedAnalysis (removeAnalysis ''x'' shared_id_selected_state)
       \<noteq> selectedAnalysis shared_id_selected_state
   \<and> selectedAnalysis (updateAnalysis ''x'' confidence_1 shared_id_selected_state)
       \<noteq> selectedAnalysis shared_id_selected_state
   \<and> selectedAnalysis (updateAnalysis ''x'' confidence_1 shared_id_selected_state)
       \<noteq> Some (spread older_x confidence_1)"
  by (simp add: shared_id_selected_state_def setSelectedAnalysis_def older_x_def newer_x_def
        confidence_1_def eval_defs)

text \<open>
  C9, amended.  Let \<open>X\<close> be a record of the history, with id \<open>i\<close>.  If \<open>X\<close> is selected,
  \<open>removeAnalysis i\<close> clears the selection and, provided \<open>X\<close> is the first record of the
  history with id \<open>i\<close> (as it is when no other record shares the id, \<open>find_unique\<close>),
  \<open>updateAnalysis i u\<close> sets the selection to the updated record, \<open>X\<close> with \<open>u\<close> merged in,
  which is then a record of the history.  If the selection is a record whose id is not
  \<open>i\<close>, both actions leave it as it is.  A selection whose id is \<open>i\<close> is cleared by the
  removal and replaced by the update with the updated first record of that id.
\<close>

theorem selection_follows_record:
  assumes "X \<in> set (analysisHistory s)" and "id_field X = Some i"
  shows "(selectedAnalysis s = Some X \<longrightarrow>
            selectedAnalysis (removeAnalysis i s) = None
          \<and> (find (\<lambda>a. id_field a = Some i) (analysisHistory s) = Some X \<longrightarrow>
                selectedAnalysis (updateAnalysis i u s) = Some (spread X u)
              \<and> spread X u \<in> set (analysisHistory (updateAnalysis i u s))))
       \<and> (\<forall>Y. selectedAnalysis s = Some Y \<and> id_field Y \<noteq> Some i \<longrightarrow>
            selectedAnalysis (removeAnalysis i s) = Some Y
          \<and> selectedAnalysis (updateAnalysis i u s) = Some Y)
       \<and> (\<forall>Y. selectedAnalysis s = Some Y \<and> id_field Y = Some i \<longrightarrow>
            selectedAnalysis (removeAnalysis i s) = None
          \<and> (\<exists>F. find (\<lambda>a. id_field a = Some i) (analysisHistory s) = Some F
                \<and> selectedAnalysis (updateAnalysis i u s) = Some (spread F u)))"
proof -
  from assms obtain k where k: "findIndex (\<lambda>a. id_field a = Some i) (analysisHistory s) = Some k"
    using findIndex_is_Some [of X "analysisHistory s" "\<lambda>a. id_field a = Some i"] by blast
  from findIndex_Some [OF k] have kl: "k < length (analysisHistory s)" by simp
  from find_findIndex [OF k]
  have x: "find (\<lambda>a. id_field a = Some i) (analysisHistory s) = Some (analysisHistory s ! k)" .
  have mem: "spread (analysisHistory s ! k) u \<in> set (analysisHistory (updateAnalysis i u s))"
    using kl by (simp add: updateAnalysis_found(1) [OF k] set_update_memI)
  show ?thesis
    using assms(2) x mem
    by (auto simp: removeAnalysis_found(2) [OF x] updateAnalysis_found(2) [OF k])
qed

theorem selection_follows_record_witness:
  "generated ''g1'' 5 \<in> set (analysisHistory selected_state)
   \<and> id_field (generated ''g1'' 5) = Some ''g1''
   \<and> selectedAnalysis selected_state = Some (generated ''g1'' 5)
   \<and> find (\<lambda>a. id_field a = Some ''g1'') (analysisHistory selected_state)
       = Some (generated ''g1'' 5)
   \<and> selectedAnalysis (removeAnalysis ''g1'' selected_state) = None
   \<and> selectedAnalysis (updateAnalysis ''g1'' confidence_1 selected_state)
       = Some (spread (generated ''g1'' 5) confidence_1)
   \<and> generated ''g2'' 6 \<in> set (analysisHistory selected_state)
   \<and> id_field (generated ''g1'' 5) \<noteq> Some ''g2''
   \<and> selectedAnalysis (removeAnalysis ''g2'' selected_state) = Some (generated ''g1'' 5)
   \<and> selectedAnalysis (updateAnalysis ''g2'' confidence_1 selected_state)
       = Some (generated ''g1'' 5)
   \<and> newer_x \<in> set (analysisHistory shared_id_selected_state)
   \<and> selectedAnalysis shared_id_selected_state = Some older_x
   \<and> id_field older_x = Some ''x''
   \<and> selectedAnalysis (removeAnalysis ''x'' shared_id_selected_state) = None
   \<and> selectedAnalysis (updateAnalysis ''x'' confidence_1 shared_id_selected_state)
       = Some (spread newer_x confidence_1)"
proof -
  have m1: "generated ''g1'' 5 \<in> set (analysisHistory selected_state)"
    and m2: "generated ''g2'' 6 \<in> set (analysisHistory selected_state)"
    and m3: "newer_x \<in> set (analysisHistory shared_id_selected_state)"
    by (simp_all add: selected_state_eval shared_id_selected_state_eval)
  have i1: "id_field (generated ''g1'' 5) = Some ''g1''"
    and i2: "id_field (generated ''g2'' 6) = Some ''g2''"
    and d: "id_field (generated ''g1'' 5) \<noteq> Some ''g2''"
    and i3: "id_field newer_x = Some ''x''"
    and i4: "id_field older_x = Some ''x''"
    by (simp_all add: generated_def newer_x_def older_x_def eval_defs)
  have f1: "find (\<lambda>a. id_field a = Some ''g1'') (analysisHistory selected_state)
              = Some (generated ''g1'' 5)"
    and f3: "find (\<lambda>a. id_field a = Some ''x'') (analysisHistory shared_id_selected_state)
              = Some newer_x"
    by (simp_all add: selected_state_eval shared_id_selected_state_eval generated_def
          newer_x_def older_x_def eval_defs)
  from selection_follows_record [OF m1 i1, of confidence_1]
       selection_follows_record [OF m2 i2, of confidence_1]
       selection_follows_record [OF m3 i3, of confidence_1]
       m1 m2 m3 i1 i4 d f1 f3 selected_state_eval(2) shared_id_selected_state_eval(2)
  show ?thesis by auto
qed


section \<open>Sorting\<close>

text \<open>
  C8. On the history of record 1 (instant \<open>T1\<close>, confidence 0.9, status \<open>pass\<close>) and record 2
  (instant \<open>T2\<close>, confidence 0.4, status \<open>fail\<close>) with \<open>T1 < T2\<close> and no date or violation
  filter set, \<open>getFilteredHistory\<close> returns the records in the order 1, 2 when sorting by
  date ascending, 1, 2 by confidence descending, and 2, 1 by status ascending.
\<close>

theorem two_record_scenario:
  assumes "T1 < T2"
  shows "sorted_view s T1 T2 ''date'' ''asc'' = [Some ''1'', Some ''2'']
       \<and> sorted_view s T1 T2 ''confidence'' ''desc'' = [Some ''1'', Some ''2'']
       \<and> sorted_view s T1 T2 ''status'' ''asc'' = [Some ''2'', Some ''1'']"
  using assms by (simp add: sort_defs eval_defs)

theorem two_record_scenario_witness:
  "(100::int) < 200
   \<and> sorted_view initial_state 100 200 ''date'' ''asc'' = [Some ''1'', Some ''2'']
   \<and> sorted_view initial_state 100 200 ''confidence'' ''desc'' = [Some ''1'', Some ''2'']
   \<and> sorted_view initial_state 100 200 ''status'' ''asc'' = [Some ''2'', Some ''1'']"
proof -
  have h: "(100::int) < 200" by simp
  from two_record_scenario [OF h, of initial_state] h show ?thesis by blast
qed

section \<open>Removal under a duplicated id\<close>

text \<open>
  C10, as stated, fails: both decrements are floored at 0 by \<open>Math.max\<close>.  In the state
  below the first record with id \<open>x\<close> has one violation while \<open>violationsDetected\<close> is 0,
  and removal leaves the counter at 0 instead of taking 1 away.
\<close>

theorem removeAnalysis_exact_decrement_counterexample:
  "2 \<le> length (records_with_id ''x'' duplicated_id_state)
   \<and> violationsDetected (statistics (removeAnalysis ''x'' duplicated_id_state))
       \<noteq> violationsDetected (statistics duplicated_id_state)
           - violations_length (hd (records_with_id ''x'' duplicated_id_state))"
  by (simp add: duplicated_id_state_def records_with_id_def eval_defs)

text \<open>
  C10, amended.  When two or more records share the id, \<open>removeAnalysis\<close> removes all of
  them, takes 1 from \<open>totalAnalyses\<close> and the violation count of the first of them from
  \<open>violationsDetected\<close>, each result floored at 0.
\<close>

theorem removeAnalysis_duplicated_id:
  assumes "2 \<le> length (records_with_id i s)"
  shows "analysisHistory (removeAnalysis i s)
           = filter (\<lambda>a. id_field a \<noteq> Some i) (analysisHistory s)
       \<and> records_with_id i (removeAnalysis i s) = []
       \<and> length (analysisHistory (removeAnalysis i s))
           = length (analysisHistory s) - length (records_with_id i s)
       \<and> totalAnalyses (statistics (removeAnalysis i s))
           = max 0 (totalAnalyses (statistics s) - 1)
       \<and> violationsDetected (statistics (removeAnalysis i s))
           = max 0 (violationsDetected (statistics s)
                      - violations_length (hd (records_with_id i s)))"
proof -
  from assms have ne: "filter (\<lambda>a. id_field a = Some i) (analysisHistory s) \<noteq> []"
    by (auto simp: records_with_id_def)
  have x: "find (\<lambda>a. id_field a = Some i) (analysisHistory s)
             = Some (hd (records_with_id i s))"
    using find_hd_filter [OF ne] by (simp add: records_with_id_def)
  have len: "length (filter (\<lambda>a. id_field a \<noteq> Some i) (analysisHistory s))
               = length (analysisHistory s) - length (records_with_id i s)"
    using sum_length_filter_compl [of "\<lambda>a. id_field a = Some i" "analysisHistory s"]
    by (simp add: records_with_id_def)
  show ?thesis
    using len by (simp add: removeAnalysis_found [OF x] records_with_id_def)
qed

theorem removeAnalysis_duplicated_id_witness:
  "2 \<le> length (records_with_id ''x'' duplicated_id_state)
   \<and> analysisHistory (removeAnalysis ''x'' duplicated_id_state) = []
   \<and> totalAnalyses (statistics duplicated_id_state) = 2
   \<and> totalAnalyses (statistics (removeAnalysis ''x'' duplicated_id_state)) = 1
   \<and> violationsDetected (statistics (removeAnalysis ''x'' duplicated_id_state)) = 0"
proof -
  have h: "2 \<le> length (records_with_id ''x'' duplicated_id_state)"
    by (simp add: duplicated_id_state_def records_with_id_def eval_defs)
  have e: "analysisHistory duplicated_id_state
             = [with_id_x\<lparr>timestamp := Some 2, violations := Some [a_violation]\<rparr>,
                with_id_x\<lparr>timestamp := Some 1\<rparr>]"
          "totalAnalyses (statistics duplicated_id_state) = 2"
          "violationsDetected (statistics duplicated_id_state) = 0"
    by (simp_all add: duplicated_id_state_def eval_defs)
  from removeAnalysis_duplicated_id [OF h] h e show ?thesis
    by (simp add: records_with_id_def eval_defs)
qed

section \<open>The counters of the statistics\<close>

lemma violations_length_nonneg: "0 \<le> violations_length a"
  by (simp add: violations_length_def split: option.splits)

lemma find_distinct_filter:
  "distinct (map f xs) \<Longrightarrow> find (\<lambda>a. f a = v) xs = Some x \<Longrightarrow>
     length (filter (\<lambda>a. f a \<noteq> v) xs) + 1 = length xs
   \<and> sum_list (map g (filter (\<lambda>a. f a \<noteq> v) xs)) + g x = (sum_list (map g xs) :: int)"
proof (induction xs)
  case Nil
  then show ?case by simp
next
  case (Cons y ys)
  show ?case
  proof (cases "f y = v")
    case True
    with Cons.prems have "x = y" by simp
    moreover from Cons.prems have "f y \<notin> f ` set ys" by simp
    with True have "\<forall>a\<in>set ys. f a \<noteq> v" by blast
    then have "filter (\<lambda>a. f a \<noteq> v) ys = ys" by simp
    ultimately show ?thesis using True by simp
  next
    case False
    with Cons show ?thesis by simp
  qed
qed

lemma update_keeps_map:
  "k < length h \<Longrightarrow> f v = f (h ! k) \<Longrightarrow> map f (h[k := v]) = map f h"
  by (simp add: map_update list_update_same_conv)

lemma spread_keeps_violations:
  "violations u = None \<Longrightarrow> violations_length (spread a u) = violations_length a"
  by (simp add: spread_def override_def violations_length_def)

lemma updateAnalysis_violations:
  "violations u = None \<Longrightarrow>
     map violations_length (analysisHistory (updateAnalysis i u s))
       = map violations_length (analysisHistory s)"
proof (cases "findIndex (\<lambda>a. id_field a = Some i) (analysisHistory s)")
  case None
  then show ?thesis by (simp add: updateAnalysis_def)
next
  case (Some k)
  assume u: "violations u = None"
  from findIndex_Some [OF Some] have "k < length (analysisHistory s)" by simp
  then show ?thesis
    by (simp add: updateAnalysis_found(1) [OF Some] update_keeps_map
          spread_keeps_violations [OF u])
qed

lemma updateAnalysis_counters:
  "totalAnalyses (statistics (updateAnalysis i u s)) = totalAnalyses (statistics s)"
  "violationsDetected (statistics (updateAnalysis i u s)) = violationsDetected (statistics s)"
  by (simp_all add: updateAnalysis_def Let_def split: option.splits)

lemma addAnalysis_counters:
  "analysisHistory (addAnalysis gen now a s) = spread (generated gen now) a # analysisHistory s"
  "totalAnalyses (statistics (addAnalysis gen now a s)) = totalAnalyses (statistics s) + 1"
  "violationsDetected (statistics (addAnalysis gen now a s))
     = violationsDetected (statistics s) + violations_length a"
  by (simp_all add: addAnalysis_def Let_def split: option.splits)

lemma spread_generated_violations:
  "violations_length (spread (generated gen now) a) = violations_length a"
  by (simp add: spread_def generated_def override_def violations_length_def split: option.splits)

lemma updateAnalysis_length:
  "length (analysisHistory (updateAnalysis i u s)) = length (analysisHistory s)"
  by (simp add: updateAnalysis_def Let_def split: option.splits)

lemma count_consistent_step:
  assumes "ids_distinct s" and "count_consistent s"
  shows "count_consistent (step s a)"
proof (cases a)
  case (AddAnalysis gen now p)
  with assms show ?thesis
    by (simp add: count_consistent_def addAnalysis_counters)
next
  case (RemoveAnalysis i)
  show ?thesis
  proof (cases "find (\<lambda>a. id_field a = Some i) (analysisHistory s)")
    case None
    with assms RemoveAnalysis show ?thesis by (simp add: removeAnalysis_def)
  next
    case (Some x)
    from assms(1) have d: "distinct (map id_field (analysisHistory s))"
      by (simp add: ids_distinct_def)
    from find_distinct_filter [OF d Some, of "\<lambda>_. 0"]
    have "length (filter (\<lambda>a. id_field a \<noteq> Some i) (analysisHistory s)) + 1
            = length (analysisHistory s)" by simp
    with assms(2) RemoveAnalysis show ?thesis
      by (simp add: count_consistent_def removeAnalysis_found [OF Some])
  qed
next
  case (UpdateAnalysis i u)
  with assms(2) show ?thesis
    by (simp add: count_consistent_def updateAnalysis_length updateAnalysis_counters)
next
  case ClearHistory
  then show ?thesis
    by (simp add: count_consistent_def clearHistory_def initial_statistics_def)
qed (use assms(2) in \<open>simp_all add: count_consistent_def other_action_defs Let_def\<close>)

lemma violations_consistent_step:
  assumes "ids_distinct s" and "violations_consistent s" and "keeps_violations s a"
  shows "violations_consistent (step s a)"
proof (cases a)
  case (AddAnalysis gen now p)
  with assms show ?thesis
    by (simp add: violations_consistent_def addAnalysis_counters spread_generated_violations)
next
  case (RemoveAnalysis i)
  show ?thesis
  proof (cases "find (\<lambda>a. id_field a = Some i) (analysisHistory s)")
    case None
    with assms RemoveAnalysis show ?thesis by (simp add: removeAnalysis_def)
  next
    case (Some x)
    from assms(1) have d: "distinct (map id_field (analysisHistory s))"
      by (simp add: ids_distinct_def)
    from find_distinct_filter [OF d Some, of violations_length]
    have e: "sum_list (map violations_length
                 (filter (\<lambda>a. id_field a \<noteq> Some i) (analysisHistory s)))
             + violations_length x = sum_list (map violations_length (analysisHistory s))"
      by simp
    have "0 \<le> sum_list (map violations_length
                 (filter (\<lambda>a. id_field a \<noteq> Some i) (analysisHistory s)))"
      by (rule sum_list_nonneg) (auto simp: violations_length_nonneg)
    with e assms(2) RemoveAnalysis show ?thesis
      by (simp add: violations_consistent_def removeAnalysis_found [OF Some])
  qed
next
  case (UpdateAnalysis i u)
  with assms have v: "violations u = None" by simp
  with assms(2) UpdateAnalysis show ?thesis
    by (simp add: violations_consistent_def updateAnalysis_violations [OF v]
          updateAnalysis_counters)
next
  case ClearHistory
  then show ?thesis
    by (simp add: violations_consistent_def clearHistory_def initial_statistics_def)
qed (use assms(2) in \<open>simp_all add: violations_consistent_def other_action_defs Let_def\<close>)

lemma every_call_take: "every_call ok s acts \<Longrightarrow> every_call ok s (take n acts)"
proof (induction acts arbitrary: s n)
  case Nil
  then show ?case by simp
next
  case (Cons a as)
  then show ?case by (cases n) simp_all
qed

lemma count_consistent_run:
  "ids_distinct s \<Longrightarrow> count_consistent s \<Longrightarrow> every_call keeps_ids_distinct s acts \<Longrightarrow>
     count_consistent (run s acts)"
proof (induction acts arbitrary: s)
  case Nil
  then show ?case by simp
next
  case (Cons a as)
  from Cons.prems have "ids_distinct (step s a)" by (simp add: keeps_ids_distinct_def)
  moreover from Cons.prems have "count_consistent (step s a)"
    by (simp add: count_consistent_step)
  ultimately show ?case using Cons.IH Cons.prems by simp
qed

lemma violations_consistent_run:
  "ids_distinct s \<Longrightarrow> violations_consistent s \<Longrightarrow>
   every_call keeps_ids_and_violations s acts \<Longrightarrow> violations_consistent (run s acts)"
proof (induction acts arbitrary: s)
  case Nil
  then show ?case by simp
next
  case (Cons a as)
  from Cons.prems have "ids_distinct (step s a)"
    by (simp add: keeps_ids_and_violations_def keeps_ids_distinct_def)
  moreover from Cons.prems have "violations_consistent (step s a)"
    by (simp add: violations_consistent_step keeps_ids_and_violations_def)
  ultimately show ?case using Cons.IH Cons.prems by simp
qed

lemma initial_state_consistent:
  "ids_distinct initial_state" "count_consistent initial_state"
  "violations_consistent initial_state"
  by (simp_all add: ids_distinct_def count_consistent_def violations_consistent_def
        initial_state_def initial_statistics_def)

text \<open>
  C1, as stated, fails: \<open>removeAnalysis\<close> drops every record with the id and takes 1 from
  \<open>totalAnalyses\<close>.  Two records inserted under the same caller-supplied id and then
  removed leave an empty history with \<open>totalAnalyses\<close> at 1.
\<close>

theorem totalAnalyses_counterexample:
  "totalAnalyses (statistics (run initial_state
       [AddAnalysis ''g1'' 1 with_id_x, AddAnalysis ''g2'' 2 with_id_x, RemoveAnalysis ''x'']))
   \<noteq> int (length (analysisHistory (run initial_state
       [AddAnalysis ''g1'' 1 with_id_x, AddAnalysis ''g2'' 2 with_id_x, RemoveAnalysis ''x''])))"
  by (simp add: eval_defs)

text \<open>
  C1, amended.  For every sequence of calls from the initial state after each of which
  the ids of the records in \<open>analysisHistory\<close> are pairwise distinct, \<open>totalAnalyses\<close>
  equals the length of \<open>analysisHistory\<close> after each call (after the first \<open>n\<close> calls,
  for every \<open>n\<close>).
\<close>

theorem totalAnalyses_is_length:
  assumes "every_call keeps_ids_distinct initial_state acts"
  shows "totalAnalyses (statistics (run initial_state (take n acts)))
           = int (length (analysisHistory (run initial_state (take n acts))))"
  using count_consistent_run [OF initial_state_consistent(1,2) every_call_take [OF assms]]
  by (simp add: count_consistent_def)

theorem totalAnalyses_is_length_witness:
  "every_call keeps_ids_distinct initial_state distinct_id_calls
   \<and> totalAnalyses (statistics (run initial_state (take 3 distinct_id_calls))) = 2
   \<and> length (analysisHistory (run initial_state (take 3 distinct_id_calls))) = 2
   \<and> totalAnalyses (statistics (run initial_state (take 4 distinct_id_calls))) = 1
   \<and> length (analysisHistory (run initial_state (take 4 distinct_id_calls))) = 1"
proof -
  have h: "every_call keeps_ids_distinct initial_state distinct_id_calls"
    by (simp add: call_defs eval_defs)
  have l: "length (analysisHistory (run initial_state (take 3 distinct_id_calls))) = 2"
          "length (analysisHistory (run initial_state (take 4 distinct_id_calls))) = 1"
    by (simp_all add: call_defs eval_defs)
  from totalAnalyses_is_length [OF h, of 3] totalAnalyses_is_length [OF h, of 4] h l
  show ?thesis by simp
qed

text \<open>
  C2, as stated, fails: \<open>updateAnalysis\<close> never touches \<open>violationsDetected\<close>, so an update
  that replaces a record's violations leaves the counter behind.
\<close>

theorem violationsDetected_counterexample:
  "violationsDetected (statistics (run initial_state
       [AddAnalysis ''g1'' 1 no_fields,
        UpdateAnalysis ''g1'' (no_fields\<lparr>violations := Some [a_violation]\<rparr>)]))
   \<noteq> sum_list (map violations_length (analysisHistory (run initial_state
       [AddAnalysis ''g1'' 1 no_fields,
        UpdateAnalysis ''g1'' (no_fields\<lparr>violations := Some [a_violation]\<rparr>)])))"
  by (simp add: eval_defs)

text \<open>
  C2, amended.  For every sequence of calls from the initial state in which no
  \<open>updateAnalysis\<close> carries a \<open>violations\<close> key, and after each of which the ids of the
  records in \<open>analysisHistory\<close> are pairwise distinct, \<open>violationsDetected\<close> equals the sum
  of the violation counts of the records after each call.
\<close>

theorem violationsDetected_is_sum:
  assumes "every_call keeps_ids_and_violations initial_state acts"
  shows "violationsDetected (statistics (run initial_state (take n acts)))
           = sum_list (map violations_length (analysisHistory (run initial_state (take n acts))))"
  using violations_consistent_run [OF initial_state_consistent(1,3) every_call_take [OF assms]]
  by (simp add: violations_consistent_def)

theorem violationsDetected_is_sum_witness:
  "every_call keeps_ids_and_violations initial_state distinct_id_calls
   \<and> violationsDetected (statistics (run initial_state (take 3 distinct_id_calls))) = 2
   \<and> sum_list (map violations_length
         (analysisHistory (run initial_state (take 3 distinct_id_calls)))) = 2"
proof -
  have h: "every_call keeps_ids_and_violations initial_state distinct_id_calls"
    by (simp add: call_defs eval_defs)
  have l: "sum_list (map violations_length
         (analysisHistory (run initial_state (take 3 distinct_id_calls)))) = 2"
    by (simp add: call_defs eval_defs)
  from violationsDetected_is_sum [OF h, of 3] h l
  show ?thesis by simp
qed

section \<open>Non-negative counters\<close>

text \<open>
  As long as no record type is a name that \<open>Object.prototype\<close> defines, every counter of the
  statistics stays a number that is at least 0, under all store actions.
\<close>

lemma get_property_plain:
  assumes "\<forall>t b. m t = Some b \<longrightarrow> bucket_nonneg b" and "t \<notin> set object_prototype_keys"
  shows "get_property m t = Undefined \<or> (\<exists>c. 0 \<le> c \<and> get_property m t = Own (Count c))"
proof (cases "m t")
  case None
  with assms(2) show ?thesis by (simp add: get_property_def)
next
  case (Some b)
  with assms(1) have "bucket_nonneg b" by blast
  then obtain c where "b = Count c" "0 \<le> c"
    by (cases b) (simp_all add: bucket_nonneg_def)
  with Some show ?thesis by (simp add: get_property_def)
qed

lemma or_0_plus_1_plain:
  assumes "p = Undefined \<or> (\<exists>c. 0 \<le> c \<and> p = Own (Count c))"
  shows "bucket_nonneg (or_0_plus_1 t p)"
  using assms by (auto simp: or_0_plus_1_def bucket_nonneg_def)

lemma minus_1_plain:
  assumes "p = Undefined \<or> (\<exists>c. 0 \<le> c \<and> p = Own (Count c))" and "truthy p"
  shows "bucket_nonneg (minus_1 p)"
  using assms by (auto simp: minus_1_def truthy_def bucket_nonneg_def)

lemma set_property_nonneg:
  assumes "\<forall>t b. m t = Some b \<longrightarrow> bucket_nonneg b" and "bucket_nonneg v"
  shows "\<forall>t' b. set_property m t v t' = Some b \<longrightarrow> bucket_nonneg b"
  using assms by (auto simp: set_property_def)

lemma map_upd_nonneg:
  assumes "\<forall>t b. m t = Some b \<longrightarrow> bucket_nonneg b" and "bucket_nonneg v"
  shows "\<forall>t' b. (m(t \<mapsto> v)) t' = Some b \<longrightarrow> bucket_nonneg b"
  using assms by auto

lemma counters_nonneg_initial: "counters_nonneg initial_statistics"
  by (simp add: counters_nonneg_def initial_statistics_def)

lemma addAnalysis_statistics:
  "totalAnalyses (statistics (addAnalysis gen now a s)) = totalAnalyses (statistics s) + 1"
  "violationsDetected (statistics (addAnalysis gen now a s))
     = violationsDetected (statistics s) + violations_length a"
  "analysisTypes (statistics (addAnalysis gen now a s))
     = (case type a of
          None \<Rightarrow> analysisTypes (statistics s)
        | Some t \<Rightarrow>
            if t = [] then analysisTypes (statistics s)
            else (analysisTypes (statistics s))
                   (t \<mapsto> or_0_plus_1 t (get_property (analysisTypes (statistics s)) t)))"
  by (simp_all add: addAnalysis_def Let_def split: option.splits)

lemma removeAnalysis_statistics:
  assumes "find (\<lambda>a. id_field a = Some i) (analysisHistory s) = Some x"
  shows "0 \<le> totalAnalyses (statistics (removeAnalysis i s))"
    and "0 \<le> violationsDetected (statistics (removeAnalysis i s))"
    and "analysisTypes (statistics (removeAnalysis i s))
     = (case type x of
          None \<Rightarrow> analysisTypes (statistics s)
        | Some t \<Rightarrow>
            if t \<noteq> [] \<and> truthy (get_property (analysisTypes (statistics s)) t)
            then set_property (analysisTypes (statistics s)) t
                   (minus_1 (get_property (analysisTypes (statistics s)) t))
            else analysisTypes (statistics s))"
  using assms by (simp_all add: removeAnalysis_def Let_def split: option.splits)

lemma counters_nonneg_addAnalysis:
  assumes "counters_nonneg (statistics s)" and "plain_type a"
  shows "counters_nonneg (statistics (addAnalysis gen now a s))"
proof -
  from assms(1) have m: "\<forall>t b. analysisTypes (statistics s) t = Some b \<longrightarrow> bucket_nonneg b"
    by (simp add: counters_nonneg_def)
  have "\<forall>t' b. analysisTypes (statistics (addAnalysis gen now a s)) t' = Some b
          \<longrightarrow> bucket_nonneg b"
  proof (cases "type a")
    case None
    with m show ?thesis by (simp add: addAnalysis_statistics)
  next
    case (Some t)
    with assms(2) have "t \<notin> set object_prototype_keys" by (simp add: plain_type_def)
    from or_0_plus_1_plain [OF get_property_plain [OF m this]]
    have "bucket_nonneg (or_0_plus_1 t (get_property (analysisTypes (statistics s)) t))" .
    from map_upd_nonneg [OF m this] m Some show ?thesis
      by (simp add: addAnalysis_statistics)
  qed
  with assms(1) violations_length_nonneg [of a] show ?thesis
    by (simp add: counters_nonneg_def addAnalysis_statistics)
qed

lemma counters_nonneg_removeAnalysis:
  assumes "counters_nonneg (statistics s)" and "\<forall>a\<in>set (analysisHistory s). plain_type a"
  shows "counters_nonneg (statistics (removeAnalysis i s))"
proof (cases "find (\<lambda>a. id_field a = Some i) (analysisHistory s)")
  case None
  with assms show ?thesis by (simp add: removeAnalysis_def)
next
  case (Some x)
  then have "x \<in> set (analysisHistory s)" by (auto simp: find_Some_iff)
  with assms(2) have px: "plain_type x" by blast
  from assms(1) have m: "\<forall>t b. analysisTypes (statistics s) t = Some b \<longrightarrow> bucket_nonneg b"
    by (simp add: counters_nonneg_def)
  have "\<forall>t' b. analysisTypes (statistics (removeAnalysis i s)) t' = Some b
          \<longrightarrow> bucket_nonneg b"
  proof (cases "type x")
    case None
    with m show ?thesis by (simp add: removeAnalysis_statistics(3) [OF Some])
  next
    case t: (Some t)
    with px have pt: "t \<notin> set object_prototype_keys" by (simp add: plain_type_def)
    show ?thesis
    proof (cases "t \<noteq> [] \<and> truthy (get_property (analysisTypes (statistics s)) t)")
      case True
      from minus_1_plain [OF get_property_plain [OF m pt]] True
      have "bucket_nonneg (minus_1 (get_property (analysisTypes (statistics s)) t))" by simp
      from set_property_nonneg [OF m this] t True show ?thesis
        by (simp add: removeAnalysis_statistics(3) [OF Some])
    next
      case False
      with m t show ?thesis by (auto simp: removeAnalysis_statistics(3) [OF Some])
    qed
  qed
  with removeAnalysis_statistics(1,2) [OF Some] show ?thesis
    by (simp add: counters_nonneg_def)
qed

lemma counters_nonneg_updateAnalysis:
  assumes "counters_nonneg (statistics s)"
  shows "counters_nonneg (statistics (updateAnalysis i u s))"
  using assms
  by (auto simp: counters_nonneg_def updateAnalysis_def Let_def split: option.splits)

lemma plain_type_spread: "plain_type a \<Longrightarrow> plain_type u \<Longrightarrow> plain_type (spread a u)"
  by (simp add: plain_type_def spread_def override_def split: option.splits)

lemma plain_type_generated: "plain_type (generated gen now)"
  by (simp add: plain_type_def generated_def)

lemma plain_history_addAnalysis:
  assumes "\<forall>a\<in>set (analysisHistory s). plain_type a" and "plain_type p"
  shows "\<forall>a\<in>set (analysisHistory (addAnalysis gen now p s)). plain_type a"
  using assms by (simp add: addAnalysis_def Let_def plain_type_spread plain_type_generated)

lemma plain_history_removeAnalysis:
  assumes "\<forall>a\<in>set (analysisHistory s). plain_type a"
  shows "\<forall>a\<in>set (analysisHistory (removeAnalysis i s)). plain_type a"
  using assms by (simp add: removeAnalysis_def Let_def split: option.splits)

lemma plain_history_updateAnalysis:
  assumes "\<forall>a\<in>set (analysisHistory s). plain_type a" and "plain_type u"
  shows "\<forall>a\<in>set (analysisHistory (updateAnalysis i u s)). plain_type a"
proof (cases "findIndex (\<lambda>a. id_field a = Some i) (analysisHistory s)")
  case None
  with assms show ?thesis by (simp add: updateAnalysis_def)
next
  case (Some k)
  from findIndex_Some [OF Some] have k: "k < length (analysisHistory s)" by simp
  with assms(1) have "plain_type (analysisHistory s ! k)" by simp
  with assms(2) have "plain_type (spread (analysisHistory s ! k) u)"
    by (simp add: plain_type_spread)
  with assms(1) show ?thesis
    by (auto simp: updateAnalysis_found(1) [OF Some] dest: set_update_subset_insert [THEN subsetD])
qed

lemma plain_and_nonneg_step:
  assumes "plain_and_nonneg s" and "plain_call s a"
  shows "plain_and_nonneg (step s a)"
proof -
  from assms(1) have c: "counters_nonneg (statistics s)"
    and h: "\<forall>a\<in>set (analysisHistory s). plain_type a"
    by (simp_all add: plain_and_nonneg_def)
  show ?thesis
  proof (cases a)
    case (AddAnalysis gen now p)
    with assms(2) have p: "plain_type p" by simp
    from counters_nonneg_addAnalysis [OF c p] plain_history_addAnalysis [OF h p] AddAnalysis
    show ?thesis by (simp add: plain_and_nonneg_def)
  next
    case (RemoveAnalysis i)
    from counters_nonneg_removeAnalysis [OF c h] plain_history_removeAnalysis [OF h]
      RemoveAnalysis
    show ?thesis by (simp add: plain_and_nonneg_def)
  next
    case (UpdateAnalysis i u)
    with assms(2) have u: "plain_type u" by simp
    from counters_nonneg_updateAnalysis [OF c] plain_history_updateAnalysis [OF h u]
      UpdateAnalysis
    show ?thesis by (simp add: plain_and_nonneg_def)
  next
    case ClearHistory
    then show ?thesis
      by (simp add: plain_and_nonneg_def clearHistory_def counters_nonneg_initial)
  qed (use c h in \<open>simp_all add: plain_and_nonneg_def other_action_defs Let_def\<close>)
qed

lemma plain_and_nonneg_run:
  "plain_and_nonneg s \<Longrightarrow> every_call plain_call s acts \<Longrightarrow> plain_and_nonneg (run s acts)"
  by (induction acts arbitrary: s) (simp_all add: plain_and_nonneg_step)

lemma counters_nonneg_plain_types:
  assumes "every_call plain_call initial_state acts"
  shows "counters_nonneg (statistics (run initial_state acts))"
proof -
  have "plain_and_nonneg initial_state"
    by (simp add: plain_and_nonneg_def initial_state_def counters_nonneg_initial)
  from plain_and_nonneg_run [OF this assms] show ?thesis
    by (simp add: plain_and_nonneg_def)
qed

text \<open>
  C7. The counters, every entry of \<open>analysisTypes\<close> among them, are to stay at least 0
  under every sequence of store actions.  \<open>analysisTypes\<close> is a plain object, and for a
  record of type \<open>constructor\<close> the read \<open>analysisTypes[analysis.type]\<close> finds the inherited
  member: \<open>addAnalysis\<close> on the empty store leaves a string in the entry, the text of that
  member followed by \<open>1\<close>, and removing the record leaves \<open>NaN\<close>.  Neither is a number that
  is at least 0.
\<close>

theorem constructor_type_bucket:
  "analysisTypes (statistics (addAnalysis ''g1'' 1 constructor_record initial_state))
     ''constructor'' = Some (MemberText ''constructor'' 1)
   \<and> analysisTypes
       (statistics (removeAnalysis ''g1'' (addAnalysis ''g1'' 1 constructor_record initial_state)))
     ''constructor'' = Some NaN_bucket"
  by (simp add: constructor_record_def eval_defs)


end
